theory Spec2Isabelle
  imports Main
begin

section \<open>The Index route: the one-time initialisation guard\<close>

text \<open>
  The component of \<^verbatim>\<open>app/routes/_index.tsx\<close>:
  \<^verbatim>\<open>
  export default function Index() {
    const initialized = useRef<boolean>(false);

    useEffect(() => {
      if (!initialized.current) {
        init();
        initialized.current = true;
      }
    }, [initialized]);

    return ( ... );
  }
  \<close>
  \<^verbatim>\<open>init\<close> is the default export of the external module \<^verbatim>\<open>walk-the-dog-core\<close>;
  its code is not part of the repository, so its behaviour is a parameter of the model:
  what its \<open>k\<close>-th call (counted over the whole page, from 0) does, return or throw.
\<close>

datatype outcome = Returns | Throws

type_synonym init_beh = "nat \<Rightarrow> outcome"

datatype error = InitThrew | NotMounted

text \<open>
  The state the component touches. \<open>refs\<close> is the store of \<^verbatim>\<open>useRef\<close> cells, one cell per
  mounted component instance (the address is the instance); \<open>next_ref\<close> is the next unused
  address; \<open>init_calls\<close> counts the calls of \<^verbatim>\<open>init()\<close> made so far.
\<close>

record world =
  refs :: "nat \<rightharpoonup> bool"
  next_ref :: nat
  init_calls :: nat

definition world0 :: world where
  "world0 = \<lparr>refs = Map.empty, next_ref = 0, init_calls = 0\<rparr>"

text \<open>
  Mounting an instance: \<^verbatim>\<open>useRef<boolean>(false)\<close> creates the instance's cell, holding
  \<open>False\<close>. Later renders of the same instance return the same cell unchanged.
\<close>

definition mount :: "world \<Rightarrow> nat \<times> world" where
  "mount w =
     (next_ref w, w\<lparr>refs := (refs w)(next_ref w \<mapsto> False), next_ref := Suc (next_ref w)\<rparr>)"

text \<open>Unmounting discards the instance's cell.\<close>

definition unmount :: "nat \<Rightarrow> world \<Rightarrow> world" where
  "unmount i w = w\<lparr>refs := (refs w)(i := None)\<rparr>"

text \<open>
  One invocation of the effect callback on instance \<open>i\<close>. The exception of \<^verbatim>\<open>init()\<close> is
  not caught, so the assignment after the call is skipped when it throws; the call itself
  has been made. On an instance that is not mounted no callback runs.
\<close>

definition effect :: "init_beh \<Rightarrow> nat \<Rightarrow> world \<Rightarrow> (error + unit) \<times> world" where
  "effect init i w =
     (case refs w i of
        None \<Rightarrow> (Inl NotMounted, w)
      | Some cur \<Rightarrow>
          if \<not> cur then
            (let w1 = w\<lparr>init_calls := Suc (init_calls w)\<rparr> in
             case init (init_calls w) of
               Throws \<Rightarrow> (Inl InitThrew, w1)
             | Returns \<Rightarrow> (Inr (), w1\<lparr>refs := (refs w1)(i \<mapsto> True)\<rparr>))
          else (Inr (), w))"

text \<open>
  \<open>n\<close> successive invocations of the callback on the same instance. An exception goes to
  the framework; the instance's cell stays as the callback left it.
\<close>

fun invoke_n :: "init_beh \<Rightarrow> nat \<Rightarrow> nat \<Rightarrow> world \<Rightarrow> world" where
  "invoke_n init i 0 w = w"
| "invoke_n init i (Suc n) w = invoke_n init i n (snd (effect init i w))"

text \<open>Two behaviours of the external routine used at concrete inputs.\<close>

definition init_ok :: init_beh where
  "init_ok k = Returns"

definition init_failing :: init_beh where
  "init_failing k = Throws"

text \<open>
  The life of a page as a list of events: instances are mounted, rendered again, their
  effect callback is invoked, they are unmounted. A later render calls \<^verbatim>\<open>Index\<close> again:
  \<^verbatim>\<open>useRef\<close> hands back the instance's cell as it is, and nothing else in the body
  writes to it.
\<close>

datatype event = Mount | Render nat | Effect nat | Unmount nat

fun step :: "init_beh \<Rightarrow> event \<Rightarrow> world \<Rightarrow> world" where
  "step init Mount w = snd (mount w)"
| "step init (Render i) w = w"
| "step init (Effect i) w = snd (effect init i w)"
| "step init (Unmount i) w = unmount i w"

fun run :: "init_beh \<Rightarrow> event list \<Rightarrow> world \<Rightarrow> world" where
  "run init [] w = w"
| "run init (e # es) w = run init es (step init e w)"

text \<open>The guard flag of an instance, as the callback reads it.\<close>

definition flag :: "world \<Rightarrow> nat \<Rightarrow> bool option" where
  "flag w i = refs w i"

text \<open>Every cell in use was handed out by an earlier mount.\<close>

definition cells_below :: "world \<Rightarrow> bool" where
  "cells_below w = (dom (refs w) \<subseteq> {..<next_ref w})"


section \<open>The Index route: the rendered element tree\<close>

text \<open>
  What \<^verbatim>\<open>Index\<close> returns:
  \<^verbatim>\<open>
  <div className="font-sans p-4">
    <h1 className="text-3xl">Welcome to Remix</h1>
    <canvas id="canvas" width={1200} height={600} />
  </div>
  \<close>
  An element is its tag, its attributes in source order and its children.
\<close>

datatype attr_value = AStr string | ANum int

datatype jsx = Element string "(string \<times> attr_value) list" "jsx list" | TextNode string

definition Index_view :: jsx where
  "Index_view =
     Element ''div'' [(''className'', AStr ''font-sans p-4'')]
       [Element ''h1'' [(''className'', AStr ''text-3xl'')] [TextNode ''Welcome to Remix''],
        Element ''canvas''
          [(''id'', AStr ''canvas''), (''width'', ANum 1200), (''height'', ANum 600)] []]"

text \<open>All element nodes of a tree, in document order, each as (tag, attributes).\<close>

fun elements :: "jsx \<Rightarrow> (string \<times> (string \<times> attr_value) list) list" where
  "elements (Element t as cs) = (t, as) # concat (map elements cs)"
| "elements (TextNode s) = []"

definition tags :: "jsx \<Rightarrow> string list" where
  "tags v = map fst (elements v)"

definition with_tag :: "string \<Rightarrow> jsx \<Rightarrow> (string \<times> attr_value) list list" where
  "with_tag t v = map snd (filter (\<lambda>e. fst e = t) (elements v))"

text \<open>The values of the \<^verbatim>\<open>id\<close> attributes that occur anywhere in a tree.\<close>

definition ids :: "jsx \<Rightarrow> attr_value list" where
  "ids v = concat (map (\<lambda>e. map snd (filter (\<lambda>a. fst a = ''id'') (snd e))) (elements v))"

definition heading_tags :: "string list" where
  "heading_tags = [''h1'', ''h2'', ''h3'', ''h4'', ''h5'', ''h6'']"

definition has_heading :: "jsx \<Rightarrow> bool" where
  "has_heading v = list_ex (\<lambda>t. t \<in> set heading_tags) (tags v)"

definition has_paragraph :: "jsx \<Rightarrow> bool" where
  "has_paragraph v = list_ex (\<lambda>t. t = ''p'') (tags v)"

section \<open>The bundler configuration\<close>

text \<open>
  \<^verbatim>\<open>vite.config.ts\<close>:
  \<^verbatim>\<open>
  export default defineConfig({
    plugins: [
      wasm(),
      remix({ future: { v3_fetcherPersist: true, v3_relativeSplatPath: true,
                        v3_throwAbortReason: true } }),
      tsconfigPaths(),
    ],
    server: { fs: { allow: [".", "../core"] } },
  });
  \<close>
  A plugin is named by the import that creates it: \<^verbatim>\<open>wasm\<close> from
  \<^verbatim>\<open>vite-plugin-wasm\<close>, \<^verbatim>\<open>remix\<close> (\<^verbatim>\<open>vitePlugin\<close>) from \<^verbatim>\<open>@remix-run/dev\<close>,
  \<^verbatim>\<open>tsconfigPaths\<close> from \<^verbatim>\<open>vite-tsconfig-paths\<close>.
\<close>

record remix_future =
  v3_fetcherPersist :: bool
  v3_relativeSplatPath :: bool
  v3_throwAbortReason :: bool

datatype plugin = Wasm | Remix remix_future | TsconfigPaths

record vite_config =
  plugins :: "plugin list"
  server_fs_allow :: "string list"

definition config :: vite_config where
  "config =
     \<lparr>plugins =
        [Wasm,
         Remix \<lparr>v3_fetcherPersist = True, v3_relativeSplatPath = True,
                v3_throwAbortReason = True\<rparr>,
         TsconfigPaths],
      server_fs_allow = [''.'', ''../core'']\<rparr>"

text \<open>The package a plugin comes from, and the role that package has.\<close>

datatype plugin_role = WebAssemblySupport | FrameworkCompiler | PathAliasResolver

fun plugin_package :: "plugin \<Rightarrow> string" where
  "plugin_package Wasm = ''vite-plugin-wasm''"
| "plugin_package (Remix f) = ''@remix-run/dev''"
| "plugin_package TsconfigPaths = ''vite-tsconfig-paths''"

fun role_of :: "plugin \<Rightarrow> plugin_role" where
  "role_of Wasm = WebAssemblySupport"
| "role_of (Remix f) = FrameworkCompiler"
| "role_of TsconfigPaths = PathAliasResolver"

section \<open>The Makefile\<close>

subsection \<open>Its text\<close>

text \<open>
  The \<^verbatim>\<open>help\<close> recipe reads the Makefile's own text, so the text is part of the model:
  one string per line, in order. Characters that a string literal cannot hold are named.
\<close>

abbreviation TAB :: char where "TAB \<equiv> CHR 0x09"
abbreviation SQ :: char where "SQ \<equiv> CHR 0x27"
abbreviation DQ :: char where "DQ \<equiv> CHR 0x22"
abbreviation BS :: char where "BS \<equiv> CHR 0x5C"
abbreviation ESC :: char where "ESC \<equiv> CHR 0x1B"

definition Makefile_lines :: "string list" where
  "Makefile_lines =
   [''.DEFAULT_GOAL := help'',
    ''.PHONY: help'',
    [],
    ''COMMAND_LIST := ${MAKEFILE_LIST}'',
    [],
    ''# if .env file exists, including secret infomations'',
    ''ifneq ('' @ [DQ] @ ''$(wildcard .env)'' @ [DQ] @ '','' @ [DQ, DQ] @ '')'',
    ''include .env'',
    ''endif'',
    [],
    ''help:'',
    [TAB] @ ''@grep -E '' @ [SQ] @ ''^[a-zA-Z].*:'' @ [BS] @ ''s##'' @ [BS] @ ''s.*$$'' @ [SQ]
      @ '' ${COMMAND_LIST} |sed '' @ [SQ] @ ''s/'' @ [BS, BS] @ ''//g'' @ [SQ]
      @ '' |awk '' @ [SQ] @ ''BEGIN {FS = '' @ [DQ] @ '': ## '' @ [DQ] @ ''}; {printf ''
      @ [DQ, BS] @ ''033[36m%-30s'' @ [BS] @ ''033[0m %s'' @ [BS] @ ''n'' @ [DQ]
      @ '', $$1, $$2}'' @ [SQ],
    [],
    ''get_git_tag:'',
    [TAB] @ ''$(eval git_ver = $(shell git describe --tags --dirty --abbrev=0))'',
    [TAB] @ ''$(eval git_ver_verbose = $(shell git describe --tags --dirty))'',
    [],
    ''.PHONY: build-core'',
    ''build-core: ## build core'',
    [TAB] @ ''@wasm-pack build core --target web'']"

subsection \<open>The listing pipeline of \<open>help\<close>\<close>

text \<open>
  \<^verbatim>\<open>grep -E '^[a-zA-Z].*:\s##\s.*$' FILE | sed 's/\\//g' |
  awk 'BEGIN {FS = ": ## "}; {printf "\033[36m%-30s\033[0m %s\n", $1, $2}'\<close>
  (the recipe's \<^verbatim>\<open>$$\<close> is make's way of writing \<^verbatim>\<open>$\<close>). Each stage is a function
  from lines to lines.
\<close>

definition is_alpha :: "char \<Rightarrow> bool" where
  "is_alpha c =
     (let n = (of_char c :: nat) in (97 \<le> n \<and> n \<le> 122) \<or> (65 \<le> n \<and> n \<le> 90))"

definition is_space :: "char \<Rightarrow> bool" where
  "is_space c = (c \<in> set [CHR '' '', TAB, CHR 0x0A, CHR 0x0B, CHR 0x0C, CHR 0x0D])"

text \<open>Somewhere in the string: a colon, a blank, two hashes, a blank (\<^verbatim>\<open>:\s##\s\<close>).\<close>

fun has_marker :: "string \<Rightarrow> bool" where
  "has_marker (a # b # c # d # e # rest) =
     ((a = CHR '':'' \<and> is_space b \<and> c = CHR ''#'' \<and> d = CHR ''#'' \<and> is_space e)
      \<or> has_marker (b # c # d # e # rest))"
| "has_marker s = False"

text \<open>The regular expression of grep: a letter first, the marker anywhere after it.\<close>

definition grep_match :: "string \<Rightarrow> bool" where
  "grep_match l = (case l of [] \<Rightarrow> False | c # cs \<Rightarrow> is_alpha c \<and> has_marker cs)"

definition grep_E :: "string list \<Rightarrow> string list" where
  "grep_E ls = filter grep_match ls"

text \<open>sed deletes every backslash.\<close>

definition sed_s :: "string \<Rightarrow> string" where
  "sed_s l = filter (\<lambda>c. c \<noteq> BS) l"

text \<open>
  awk splits a line into fields at each occurrence of the separator \<^verbatim>\<open>": ## "\<close>, left to
  right; a field that does not exist is the empty string.
\<close>

definition FS :: string where
  "FS = '': ## ''"

function fields :: "string \<Rightarrow> string \<Rightarrow> string list" where
  "fields acc s =
     (if s = [] then [rev acc]
      else if take 5 s = FS then rev acc # fields [] (drop 5 s)
      else fields (hd s # acc) (tl s))"
  by pat_completeness auto
termination
  by (relation "measure (\<lambda>(acc, s). length s)") auto

definition field :: "nat \<Rightarrow> string \<Rightarrow> string" where
  "field k l = (let fs = fields [] l in if k < length fs then fs ! k else [])"

text \<open>\<^verbatim>\<open>%-30s\<close>: left-justified in 30 columns, never cut.\<close>

definition pad30 :: "string \<Rightarrow> string" where
  "pad30 s = s @ replicate (30 - length s) (CHR '' '')"

definition awk_printf :: "string \<Rightarrow> string" where
  "awk_printf l = [ESC] @ ''[36m'' @ pad30 (field 0 l) @ [ESC] @ ''[0m '' @ field 1 l"

text \<open>The lines the pipeline writes, each without its final newline.\<close>

definition help_listing :: "string list \<Rightarrow> string list" where
  "help_listing ls = map awk_printf (map sed_s (grep_E ls))"

text \<open>The same lines as pairs: the name in the first column, the description after it.\<close>

definition listed :: "string list \<Rightarrow> (string \<times> string) list" where
  "listed ls = map (\<lambda>l. (field 0 l, field 1 l)) (map sed_s (grep_E ls))"

subsection \<open>Its rules\<close>

text \<open>
  What a run of make depends on from outside: which files exist (a target that is not
  phony is rebuilt only when no file of its name exists), the exit status of an external
  program (by its argument vector) and the text a \<^verbatim>\<open>$(shell ...)\<close> call captures from the
  standard output of a program (its final newline removed). The optional \<^verbatim>\<open>include .env\<close> is not modelled: the model
  is a run where \<^verbatim>\<open>.env\<close> is absent, or holds variables that no rule here reads.
\<close>

record env =
  file_exists :: "string \<Rightarrow> bool"
  exit_status :: "string list \<Rightarrow> nat"
  captured :: "string list \<Rightarrow> string"

text \<open>An environment with no files, where every program exits with status \<open>n\<close>.\<close>

definition env_with_status :: "nat \<Rightarrow> env" where
  "env_with_status n =
     \<lparr>file_exists = (\<lambda>f. False), exit_status = (\<lambda>argv. n), captured = (\<lambda>argv. [])\<rparr>"

text \<open>
  A recipe line is a shell command, a pipeline of programs each with its arguments (after
  make's expansion and the shell's quote removal), with the flag of the \<^verbatim>\<open>@\<close> prefix that
  stops make from echoing it; or it is \<^verbatim>\<open>$(eval VAR = $(shell PROGRAM))\<close>, which starts
  the program, reads the line \<^verbatim>\<open>VAR = TEXT\<close> (TEXT being what the program wrote) as makefile
  text, and expands to nothing.
\<close>

datatype recipe_line = Run bool "string list list" | EvalShell string "string list"

record rule =
  target :: string
  phony :: bool
  doc :: "string option"
  recipe :: "recipe_line list"

record makefile =
  default_goal :: string
  rules :: "rule list"

text \<open>
  \<^verbatim>\<open>COMMAND_LIST := ${MAKEFILE_LIST}\<close> is expanded where it stands, before any include,
  so it names the Makefile alone.
\<close>

definition makefile_name :: string where
  "makefile_name = ''Makefile''"

definition grep_argv :: "string list" where
  "grep_argv =
     [''grep'', ''-E'', ''^[a-zA-Z].*:'' @ [BS] @ ''s##'' @ [BS] @ ''s.*$'', makefile_name]"

definition sed_argv :: "string list" where
  "sed_argv = [''sed'', ''s/'' @ [BS, BS] @ ''//g'']"

definition awk_argv :: "string list" where
  "awk_argv =
     [''awk'',
      ''BEGIN {FS = '' @ [DQ] @ '': ## '' @ [DQ] @ ''}; {printf '' @ [DQ, BS]
        @ ''033[36m%-30s'' @ [BS] @ ''033[0m %s'' @ [BS] @ ''n'' @ [DQ] @ '', $1, $2}'']"

definition help_pipeline :: "string list list" where
  "help_pipeline = [grep_argv, sed_argv, awk_argv]"

definition wasm_pack_argv :: "string list" where
  "wasm_pack_argv = [''wasm-pack'', ''build'', ''core'', ''--target'', ''web'']"

definition git_describe_abbrev :: "string list" where
  "git_describe_abbrev = [''git'', ''describe'', ''--tags'', ''--dirty'', ''--abbrev=0'']"

definition git_describe_verbose :: "string list" where
  "git_describe_verbose = [''git'', ''describe'', ''--tags'', ''--dirty'']"

definition help_rule :: rule where
  "help_rule =
     \<lparr>target = ''help'', phony = True, doc = None, recipe = [Run True help_pipeline]\<rparr>"

definition get_git_tag_rule :: rule where
  "get_git_tag_rule =
     \<lparr>target = ''get_git_tag'', phony = False, doc = None,
      recipe = [EvalShell ''git_ver'' git_describe_abbrev,
                EvalShell ''git_ver_verbose'' git_describe_verbose]\<rparr>"

definition build_core_rule :: rule where
  "build_core_rule =
     \<lparr>target = ''build-core'', phony = True, doc = Some ''build core'',
      recipe = [Run True [wasm_pack_argv]]\<rparr>"

definition Makefile :: makefile where
  "Makefile =
     \<lparr>default_goal = ''help'', rules = [help_rule, get_git_tag_rule, build_core_rule]\<rparr>"

subsection \<open>Running make\<close>

text \<open>
  The value a variable gets from \<^verbatim>\<open>$(eval VAR = TEXT)\<close>. make reads the line again as
  makefile text, so TEXT is not taken as it is: a \<^verbatim>\<open>#\<close> starts a comment, and the value is
  what stands before it. A backslash can quote the \<^verbatim>\<open>#\<close>, a \<^verbatim>\<open>$\<close> begins a reference that
  make expands where the variable is read, and blanks at the ends are treated on their own;
  for a text with one of these the variable is assigned all the same, but the model does
  not say to what.
\<close>

datatype mvalue = Text string | Unmodelled

definition reread :: "string \<Rightarrow> mvalue" where
  "reread t =
     (if list_ex (\<lambda>c. c = BS \<or> c = CHR ''$'' \<or> is_space c) t then Unmodelled
      else Text (takeWhile (\<lambda>c. c \<noteq> CHR ''#'') t))"

text \<open>
  The lines make itself writes on standard output when a goal ended well and no command
  was started for it: \<^verbatim>\<open>Nothing to be done for 'g'.\<close> when the goal is phony or has no
  recipe, \<^verbatim>\<open>'g' is up to date.\<close> otherwise.
\<close>

datatype message = UpToDate string | NothingToBeDone string

text \<open>
  What a run leaves behind: make's exit code; the target and status of the recipe line
  that failed, as make reports them on standard error; the pipelines it started, in order,
  which write to the terminal themselves (for the listing pipeline, \<open>help_listing\<close> above);
  the programs it started through \<^verbatim>\<open>$(shell ...)\<close>, whose standard output is captured and
  whose standard error is not; the recipe lines it echoed and the messages it wrote, both on
  standard output; the variables its recipes assigned.
\<close>

record result =
  exit_code :: nat
  failed :: "(string \<times> nat) option"
  ran :: "string list list list"
  shelled :: "string list list"
  echoed :: "recipe_line list"
  messages :: "message list"
  assigned :: "(string \<times> mvalue) list"

definition result0 :: result where
  "result0 =
     \<lparr>exit_code = 0, failed = None, ran = [], shelled = [], echoed = [], messages = [],
      assigned = []\<rparr>"

text \<open>The shell's status of a pipeline is the status of its last program.\<close>

definition pipeline_status :: "env \<Rightarrow> string list list \<Rightarrow> nat" where
  "pipeline_status e p = (if p = [] then 0 else exit_status e (last p))"

text \<open>
  make expands every line of a recipe before it runs the first; expanding an
  \<^verbatim>\<open>$(eval VAR = $(shell PROGRAM))\<close> line starts the program and makes the assignment.
\<close>

fun shell_calls :: "recipe_line \<Rightarrow> string list list" where
  "shell_calls (EvalShell v c) = [c]"
| "shell_calls (Run s p) = []"

fun expand_line :: "env \<Rightarrow> recipe_line \<Rightarrow> (string \<times> mvalue) list" where
  "expand_line e (EvalShell v c) = [(v, reread (captured e c))]"
| "expand_line e (Run s p) = []"

text \<open>
  Then the lines run in order. A line that expanded to nothing is skipped. A command is
  echoed unless it is silent, handed to the shell once, and a status other than 0 ends the
  run: make reports the status and exits with 2.
\<close>

fun run_lines :: "env \<Rightarrow> string \<Rightarrow> recipe_line list \<Rightarrow> result \<Rightarrow> result" where
  "run_lines e t [] r = r"
| "run_lines e t (EvalShell v c # ls) r = run_lines e t ls r"
| "run_lines e t (Run s p # ls) r =
     (let r1 = r\<lparr>ran := ran r @ [p], echoed := echoed r @ (if s then [] else [Run s p])\<rparr>;
          st = pipeline_status e p
      in if st = 0 then run_lines e t ls r1
         else r1\<lparr>exit_code := 2, failed := Some (t, st)\<rparr>)"

definition run_recipe :: "env \<Rightarrow> rule \<Rightarrow> result \<Rightarrow> result" where
  "run_recipe e rl r =
     run_lines e (target rl) (recipe rl)
       (r\<lparr>shelled := shelled r @ concat (map shell_calls (recipe rl)),
          assigned := assigned r @ concat (map (expand_line e) (recipe rl))\<rparr>)"

fun find_rule :: "rule list \<Rightarrow> string \<Rightarrow> rule option" where
  "find_rule [] g = None"
| "find_rule (rl # rls) g = (if target rl = g then Some rl else find_rule rls g)"

text \<open>
  make's closing message for a goal: written when the goal ended well and no command was
  started for it.
\<close>

definition report :: "rule option \<Rightarrow> string \<Rightarrow> result \<Rightarrow> result" where
  "report ro g r =
     (if exit_code r = 0 \<and> ran r = [] then
        r\<lparr>messages := messages r @
             [case ro of
                None \<Rightarrow> NothingToBeDone g
              | Some rl \<Rightarrow>
                  if phony rl \<or> recipe rl = [] then NothingToBeDone g else UpToDate g]\<rparr>
      else r)"

text \<open>
  Updating a goal. No rule of this Makefile has a prerequisite, so a goal is remade when
  it is phony or no file of its name exists. A goal with no rule and no file is an error.
\<close>

definition update :: "env \<Rightarrow> makefile \<Rightarrow> string \<Rightarrow> result" where
  "update e mk g =
     (case find_rule (rules mk) g of
        None \<Rightarrow> if file_exists e g then report None g result0 else result0\<lparr>exit_code := 2\<rparr>
      | Some rl \<Rightarrow>
          report (Some rl) g
            (if phony rl \<or> \<not> file_exists e g then run_recipe e rl result0 else result0))"

text \<open>\<^verbatim>\<open>make\<close> with no goal on the command line takes \<^verbatim>\<open>.DEFAULT_GOAL\<close>.\<close>

definition make :: "env \<Rightarrow> makefile \<Rightarrow> string option \<Rightarrow> result" where
  "make e mk goal = update e mk (case goal of None \<Rightarrow> default_goal mk | Some g \<Rightarrow> g)"

subsection \<open>Rule lines and variable references in the text\<close>

text \<open>
  A line of the text that defines a target: it is not a recipe line (no leading tab) and
  not a comment, and it has a colon that is not the colon of \<^verbatim>\<open>:=\<close>. The target is the
  text before the colon.
\<close>

fun split_colon :: "string \<Rightarrow> (string \<times> string) option" where
  "split_colon [] = None"
| "split_colon (c # cs) =
     (if c = CHR '':'' then Some ([], cs)
      else map_option (\<lambda>(a, b). (c # a, b)) (split_colon cs))"

definition header_of :: "string \<Rightarrow> (string \<times> string) option" where
  "header_of l =
     (if l = [] \<or> hd l = TAB \<or> hd l = CHR ''#'' then None
      else case split_colon l of
             None \<Rightarrow> None
           | Some (t, rest) \<Rightarrow> if take 1 rest = ''='' then None else Some (t, rest))"

text \<open>The annotation of a target's line: what follows \<^verbatim>\<open>: ## \<close>.\<close>

definition annotation :: "string \<Rightarrow> string option" where
  "annotation rest = (if take 4 rest = '' ## '' then Some (drop 4 rest) else None)"

definition annotated_targets :: "string list \<Rightarrow> (string \<times> string) list" where
  "annotated_targets ls =
     List.map_filter
       (\<lambda>l. case header_of l of
               None \<Rightarrow> None
             | Some (t, rest) \<Rightarrow> map_option (Pair t) (annotation rest)) ls"



text \<open>A command line written from its words, one blank between two.\<close>

fun unwords :: "string list \<Rightarrow> string" where
  "unwords [] = []"
| "unwords [w] = w"
| "unwords (w # ws) = w @ '' '' @ unwords ws"

text \<open>
  How an argument stands in a recipe: make reads \<^verbatim>\<open>$$\<close> as one dollar, and the shell
  takes the text between single quotes as it is.
\<close>

definition make_dollar :: "string \<Rightarrow> string" where
  "make_dollar s = concat (map (\<lambda>c. if c = CHR ''$'' then ''$$'' else [c]) s)"

definition shell_quote :: "string \<Rightarrow> string" where
  "shell_quote s = [SQ] @ s @ [SQ]"

section \<open>Properties of the initialisation guard\<close>

subsection \<open>One invocation of the callback\<close>

lemma effect_flag_set:
  "refs w i = Some True \<Longrightarrow> effect init i w = (Inr (), w)"
  by (simp add: effect_def)

lemma effect_returns:
  "refs w i = Some False \<Longrightarrow> init (init_calls w) = Returns \<Longrightarrow>
   effect init i w =
     (Inr (), w\<lparr>init_calls := Suc (init_calls w), refs := (refs w)(i \<mapsto> True)\<rparr>)"
  by (simp add: effect_def)

lemma effect_throws:
  "refs w i = Some False \<Longrightarrow> init (init_calls w) = Throws \<Longrightarrow>
   effect init i w = (Inl InitThrew, w\<lparr>init_calls := Suc (init_calls w)\<rparr>)"
  by (simp add: effect_def)

lemma effect_unset_calls:
  "refs w i = Some False \<Longrightarrow> init_calls (snd (effect init i w)) = Suc (init_calls w)"
  by (simp add: effect_def Let_def split: outcome.splits)

lemma effect_calls_mono: "init_calls w \<le> init_calls (snd (effect init i w))"
  by (simp add: effect_def Let_def split: option.splits outcome.splits)

lemma effect_other_cell:
  "j \<noteq> i \<Longrightarrow> refs (snd (effect init j w)) i = refs w i"
  by (simp add: effect_def Let_def split: option.splits outcome.splits)

lemma effect_keeps_set:
  "refs w i = Some True \<Longrightarrow> refs (snd (effect init j w)) i = Some True"
  by (cases "j = i") (simp_all add: effect_flag_set effect_other_cell)

lemma effect_next_ref: "next_ref (snd (effect init j w)) = next_ref w"
  by (simp add: effect_def Let_def split: option.splits outcome.splits)

lemma effect_dom: "dom (refs (snd (effect init j w))) = dom (refs w)"
  by (auto simp: effect_def Let_def split: option.splits outcome.splits if_splits)

subsection \<open>Several invocations, and whole histories\<close>

lemma invoke_n_flag_set:
  "refs w i = Some True \<Longrightarrow> invoke_n init i n w = w"
  by (induction n) (simp_all add: effect_flag_set)

lemma invoke_n_Suc_returns:
  assumes "refs w i = Some False" and "init (init_calls w) = Returns"
  shows "invoke_n init i (Suc n) w =
           w\<lparr>init_calls := Suc (init_calls w), refs := (refs w)(i \<mapsto> True)\<rparr>"
  using assms by (simp add: effect_returns invoke_n_flag_set)

lemma invoke_n_calls_mono: "init_calls w \<le> init_calls (invoke_n init i n w)"
proof (induction n arbitrary: w)
  case 0
  then show ?case by simp
next
  case (Suc n)
  have "init_calls w \<le> init_calls (snd (effect init i w))"
    by (rule effect_calls_mono)
  also have "\<dots> \<le> init_calls (invoke_n init i n (snd (effect init i w)))"
    by (rule Suc.IH)
  finally show ?case by simp
qed

lemma step_keeps_set:
  "refs w i = Some True \<Longrightarrow> i < next_ref w \<Longrightarrow> e \<noteq> Unmount i \<Longrightarrow>
   refs (step init e w) i = Some True \<and> i < next_ref (step init e w)"
  by (cases e) (auto simp: mount_def unmount_def effect_keeps_set effect_next_ref)

lemma run_keeps_set:
  "refs w i = Some True \<Longrightarrow> i < next_ref w \<Longrightarrow> Unmount i \<notin> set es \<Longrightarrow>
   refs (run init es w) i = Some True"
proof (induction es arbitrary: w)
  case Nil
  then show ?case by simp
next
  case (Cons e es)
  from Cons.prems have "e \<noteq> Unmount i" and rest: "Unmount i \<notin> set es" by auto
  with Cons.prems step_keeps_set [of w i e init]
  have "refs (step init e w) i = Some True \<and> i < next_ref (step init e w)" by blast
  with Cons.IH rest show ?case by simp
qed

lemma step_cells_below: "cells_below w \<Longrightarrow> cells_below (step init e w)"
  by (cases e) (auto simp: cells_below_def mount_def unmount_def effect_dom effect_next_ref)

lemma run_cells_below: "cells_below w \<Longrightarrow> cells_below (run init es w)"
  by (induction es arbitrary: w) (simp_all add: step_cells_below)

lemma reachable_cells_below: "cells_below (run init es world0)"
  by (rule run_cells_below) (simp add: cells_below_def world0_def)

lemma reachable_cell_lt:
  "refs (run init es world0) i = Some b \<Longrightarrow> i < next_ref (run init es world0)"
  using reachable_cells_below [of init es] by (auto simp: cells_below_def)

subsection \<open>The claims about the guard\<close>

text \<open>
  Claim C1, as the code has it. On a freshly mounted instance, if the first call of
  \<^verbatim>\<open>init()\<close> returns without raising, then over any number \<open>N \<ge> 1\<close> of invocations of the
  callback \<^verbatim>\<open>init()\<close> is called exactly once: the first invocation finds the flag unset,
  calls \<^verbatim>\<open>init()\<close> and sets the flag; every later invocation finds the flag set and leaves
  the state as it is.
\<close>

theorem init_called_once_if_first_call_returns:
  assumes "mount w = (i, w0)" and "init (init_calls w) = Returns" and "1 \<le> N"
  shows "flag w0 i = Some False \<and>
         fst (effect init i w0) = Inr () \<and>
         init_calls (snd (effect init i w0)) = Suc (init_calls w) \<and>
         flag (snd (effect init i w0)) i = Some True \<and>
         init_calls (invoke_n init i N w0) = Suc (init_calls w) \<and>
         flag (invoke_n init i N w0) i = Some True \<and>
         effect init i (invoke_n init i N w0) = (Inr (), invoke_n init i N w0)"
proof -
  from assms(1) have w0: "refs w0 i = Some False" "init_calls w0 = init_calls w"
    by (auto simp: mount_def)
  with assms(2) have ret: "init (init_calls w0) = Returns" by simp
  obtain n where N: "N = Suc n" using assms(3) by (cases N) auto
  let ?w1 = "w0\<lparr>init_calls := Suc (init_calls w0), refs := (refs w0)(i \<mapsto> True)\<rparr>"
  have first: "effect init i w0 = (Inr (), ?w1)"
    using w0(1) ret by (rule effect_returns)
  have all: "invoke_n init i N w0 = ?w1"
    unfolding N using w0(1) ret by (rule invoke_n_Suc_returns)
  have again: "effect init i ?w1 = (Inr (), ?w1)"
    by (rule effect_flag_set) simp
  show ?thesis
    using w0 first all again by (simp add: flag_def)
qed

text \<open>The first instance of a page, an \<^verbatim>\<open>init()\<close> that returns, three invocations.\<close>

theorem init_called_once_if_first_call_returns_witness:
  "mount world0 = (0, snd (mount world0)) \<and> init_ok (init_calls world0) = Returns \<and>
   (1::nat) \<le> 3 \<and>
   init_calls (invoke_n init_ok 0 3 (snd (mount world0))) = 1 \<and>
   flag (invoke_n init_ok 0 3 (snd (mount world0))) 0 = Some True"
proof -
  have m: "mount world0 = (0, snd (mount world0))"
    by (simp add: mount_def world0_def)
  have r: "init_ok (init_calls world0) = Returns"
    by (simp add: init_ok_def)
  have n: "(1::nat) \<le> 3" by simp
  from init_called_once_if_first_call_returns
         [where w = world0 and i = 0 and ?w0.0 = "snd (mount world0)" and init = init_ok
            and N = 3, OF m r n] m r
  show ?thesis by (simp add: world0_def)
qed

text \<open>
  Claim C1 as it is written, with no condition on \<^verbatim>\<open>init()\<close>, fails: when \<^verbatim>\<open>init()\<close>
  throws, two invocations on the first instance of a page call it twice, and the flag is
  still unset.
\<close>

theorem init_called_twice_when_init_throws:
  "fst (mount world0) = 0 \<and>
   init_calls (invoke_n init_failing 0 2 (snd (mount world0))) = 2 \<and>
   flag (invoke_n init_failing 0 2 (snd (mount world0))) 0 = Some False"
  by (simp add: mount_def world0_def effect_def init_failing_def flag_def numeral_2_eq_2)

text \<open>
  Claim C2. If \<^verbatim>\<open>init()\<close> throws on an invocation that found the flag unset, the exception
  leaves the callback, the flag is still unset (but the call has been counted), and the
  next invocation on the same instance calls \<^verbatim>\<open>init()\<close> again. So from an unset flag and a
  throwing first call, two or more invocations never make exactly one call.
\<close>

theorem init_throw_leaves_flag_unset:
  assumes "flag w i = Some False" and "init (init_calls w) = Throws"
  shows "fst (effect init i w) = Inl InitThrew \<and>
         flag (snd (effect init i w)) i = Some False \<and>
         init_calls (snd (effect init i w)) = Suc (init_calls w) \<and>
         init_calls (snd (effect init i (snd (effect init i w)))) = Suc (Suc (init_calls w)) \<and>
         (\<forall>N. 2 \<le> N \<longrightarrow> Suc (init_calls w) < init_calls (invoke_n init i N w))"
proof -
  let ?w1 = "w\<lparr>init_calls := Suc (init_calls w)\<rparr>"
  from assms have unset: "refs w i = Some False" by (simp add: flag_def)
  then have first: "effect init i w = (Inl InitThrew, ?w1)"
    using assms(2) by (rule effect_throws)
  have unset1: "refs ?w1 i = Some False" using unset by simp
  then have second: "init_calls (snd (effect init i ?w1)) = Suc (Suc (init_calls w))"
    by (simp add: effect_unset_calls)
  have many: "Suc (init_calls w) < init_calls (invoke_n init i N w)" if "2 \<le> N" for N
  proof -
    from that obtain n where N: "N = Suc (Suc n)"
      by (metis Suc_le_D numeral_2_eq_2 Suc_le_mono)
    have "Suc (Suc (init_calls w)) \<le> init_calls (invoke_n init i n (snd (effect init i ?w1)))"
      using invoke_n_calls_mono [of "snd (effect init i ?w1)" init i n] second by simp
    then show ?thesis by (simp add: N first)
  qed
  show ?thesis
    using first unset1 second many by (simp add: flag_def)
qed

text \<open>The first instance of a page, an \<^verbatim>\<open>init()\<close> that throws, five invocations.\<close>

theorem init_throw_leaves_flag_unset_witness:
  "flag (snd (mount world0)) 0 = Some False \<and>
   init_failing (init_calls (snd (mount world0))) = Throws \<and>
   fst (effect init_failing 0 (snd (mount world0))) = Inl InitThrew \<and>
   flag (snd (effect init_failing 0 (snd (mount world0)))) 0 = Some False \<and>
   (2::nat) \<le> 5 \<and>
   1 < init_calls (invoke_n init_failing 0 5 (snd (mount world0)))"
proof -
  have f: "flag (snd (mount world0)) 0 = Some False"
    by (simp add: flag_def mount_def world0_def)
  have t: "init_failing (init_calls (snd (mount world0))) = Throws"
    by (simp add: init_failing_def)
  have c: "init_calls (snd (mount world0)) = 0"
    by (simp add: mount_def world0_def)
  from init_throw_leaves_flag_unset
         [where w = "snd (mount world0)" and i = 0 and init = init_failing, OF f t] f t c
  show ?thesis by simp
qed

text \<open>
  Claim C3. The guard flag of an instance is monotone: mounting creates it unset; an
  invocation whose \<^verbatim>\<open>init()\<close> throws leaves it unset; the first invocation whose \<^verbatim>\<open>init()\<close>
  returns sets it; and once it is set, no later event of the page short of unmounting that
  instance (renders, invocations of the callback on any instance, mounts and unmounts of
  other instances) resets it.
\<close>

theorem guard_flag_monotone:
  "flag (snd (mount w)) (fst (mount w)) = Some False \<and>
   (flag w1 i = Some False \<and> init (init_calls w1) = Throws \<longrightarrow>
      flag (snd (effect init i w1)) i = Some False) \<and>
   (flag w1 i = Some False \<and> init (init_calls w1) = Returns \<longrightarrow>
      flag (snd (effect init i w1)) i = Some True) \<and>
   (flag (run init es0 world0) k = Some True \<and> Unmount k \<notin> set es \<longrightarrow>
      flag (run init es (run init es0 world0)) k = Some True)"
proof -
  have created: "flag (snd (mount w)) (fst (mount w)) = Some False"
    by (simp add: flag_def mount_def)
  have stays: "flag (snd (effect init i w1)) i = Some False"
    if "flag w1 i = Some False" "init (init_calls w1) = Throws"
    using that by (simp add: flag_def effect_throws)
  have rises: "flag (snd (effect init i w1)) i = Some True"
    if "flag w1 i = Some False" "init (init_calls w1) = Returns"
    using that by (simp add: flag_def effect_returns)
  have kept: "flag (run init es (run init es0 world0)) k = Some True"
    if "flag (run init es0 world0) k = Some True" "Unmount k \<notin> set es"
  proof -
    from that(1) have set: "refs (run init es0 world0) k = Some True"
      by (simp add: flag_def)
    then have "k < next_ref (run init es0 world0)"
      by (rule reachable_cell_lt)
    with set that(2) show ?thesis
      by (simp add: flag_def run_keeps_set)
  qed
  from created stays rises kept show ?thesis by blast
qed

text \<open>
  A first instance whose flag is set, then a render, more invocations, and a second
  instance that comes and goes.
\<close>

theorem guard_flag_monotone_witness:
  "flag (snd (mount world0)) (fst (mount world0)) = Some False \<and>
   flag (snd (mount world0)) 0 = Some False \<and>
   init_failing (init_calls (snd (mount world0))) = Throws \<and>
   flag (snd (effect init_failing 0 (snd (mount world0)))) 0 = Some False \<and>
   init_ok (init_calls (snd (mount world0))) = Returns \<and>
   flag (snd (effect init_ok 0 (snd (mount world0)))) 0 = Some True \<and>
   flag (run init_ok [Mount, Effect 0] world0) 0 = Some True \<and>
   Unmount 0 \<notin> set [Render 0, Effect 0, Mount, Effect 1, Unmount 1, Effect 0] \<and>
   flag (run init_ok [Render 0, Effect 0, Mount, Effect 1, Unmount 1, Effect 0]
           (run init_ok [Mount, Effect 0] world0)) 0 = Some True"
proof -
  have f: "flag (snd (mount world0)) 0 = Some False"
    by (simp add: flag_def mount_def world0_def)
  have t: "init_failing (init_calls (snd (mount world0))) = Throws"
    by (simp add: init_failing_def)
  have r: "init_ok (init_calls (snd (mount world0))) = Returns"
    by (simp add: init_ok_def)
  have s: "flag (run init_ok [Mount, Effect 0] world0) 0 = Some True"
    by (simp add: flag_def mount_def world0_def effect_def init_ok_def)
  have u: "Unmount 0 \<notin> set [Render 0, Effect 0, Mount, Effect 1, Unmount 1, Effect 0]"
    by simp
  note a = guard_flag_monotone [where w = world0 and ?w1.0 = "snd (mount world0)" and i = 0
      and init = init_failing and ?es0.0 = "[]" and k = 0 and es = "[]"]
  note b = guard_flag_monotone [where w = world0 and ?w1.0 = "snd (mount world0)" and i = 0
      and init = init_ok and ?es0.0 = "[Mount, Effect 0]" and k = 0
      and es = "[Render 0, Effect 0, Mount, Effect 1, Unmount 1, Effect 0]"]
  from a b f t r s u show ?thesis by blast
qed

text \<open>
  Claim C4. The guard is kept per instance. After any history of the page, when an
  instance \<open>i\<close> (whatever its flag \<open>b\<close>) is unmounted and a fresh instance \<open>j\<close> is mounted,
  \<open>j\<close> is another instance with its own flag, unset; its first invocation of the callback
  calls \<^verbatim>\<open>init()\<close> once more; and when that call returns, any number \<open>N \<ge> 1\<close> of
  invocations on \<open>j\<close> make exactly that one call.
\<close>

theorem fresh_instance_initialises_independently:
  assumes "flag (run init es world0) i = Some b"
      and "mount (unmount i (run init es world0)) = (j, w')"
  shows "j \<noteq> i \<and> flag w' i = None \<and> flag w' j = Some False \<and>
         init_calls w' = init_calls (run init es world0) \<and>
         init_calls (snd (effect init j w')) = Suc (init_calls w') \<and>
         (init (init_calls w') = Returns \<longrightarrow>
            (\<forall>N. 1 \<le> N \<longrightarrow> init_calls (invoke_n init j N w') = Suc (init_calls w')))"
proof -
  let ?w = "run init es world0"
  from assms(1) have "refs ?w i = Some b" by (simp add: flag_def)
  then have lt: "i < next_ref ?w" by (rule reachable_cell_lt)
  from assms(2) have j: "j = next_ref ?w"
    and w': "w' = (unmount i ?w)\<lparr>refs := (refs (unmount i ?w))(j \<mapsto> False),
                                  next_ref := Suc j\<rparr>"
    by (auto simp: mount_def unmount_def)
  from j lt have ne: "j \<noteq> i" by simp
  have old: "refs w' i = None" using ne by (simp add: w' unmount_def)
  have new: "refs w' j = Some False" by (simp add: w')
  have calls: "init_calls w' = init_calls ?w" by (simp add: w' unmount_def)
  have once: "init_calls (snd (effect init j w')) = Suc (init_calls w')"
    using new by (rule effect_unset_calls)
  have many: "init_calls (invoke_n init j N w') = Suc (init_calls w')"
    if "init (init_calls w') = Returns" "1 \<le> N" for N
  proof -
    from that(2) obtain n where "N = Suc n" by (cases N) auto
    then show ?thesis
      using invoke_n_Suc_returns [where w = w' and i = j and init = init and n = n]
        new that(1) by simp
  qed
  from ne old new calls once many show ?thesis by (simp add: flag_def)
qed

text \<open>
  The first instance is initialised and unmounted; the second one starts unset and makes
  the second call of \<^verbatim>\<open>init()\<close>, once over four invocations.
\<close>

theorem fresh_instance_initialises_independently_witness:
  "flag (run init_ok [Mount, Effect 0] world0) 0 = Some True \<and>
   mount (unmount 0 (run init_ok [Mount, Effect 0] world0)) =
     (1, snd (mount (unmount 0 (run init_ok [Mount, Effect 0] world0)))) \<and>
   flag (snd (mount (unmount 0 (run init_ok [Mount, Effect 0] world0)))) 1 = Some False \<and>
   init_calls (snd (mount (unmount 0 (run init_ok [Mount, Effect 0] world0)))) = 1 \<and>
   init_calls (snd (effect init_ok 1
      (snd (mount (unmount 0 (run init_ok [Mount, Effect 0] world0)))))) = 2 \<and>
   init_calls (invoke_n init_ok 1 4
      (snd (mount (unmount 0 (run init_ok [Mount, Effect 0] world0))))) = 2"
proof -
  let ?w = "run init_ok [Mount, Effect 0] world0"
  have s: "flag ?w 0 = Some True"
    by (simp add: flag_def mount_def world0_def effect_def init_ok_def)
  have m: "mount (unmount 0 ?w) = (1, snd (mount (unmount 0 ?w)))"
    by (simp add: mount_def unmount_def world0_def effect_def init_ok_def)
  have c: "init_calls ?w = 1"
    by (simp add: mount_def world0_def effect_def init_ok_def)
  have r: "init_ok (init_calls (snd (mount (unmount 0 ?w)))) = Returns"
    by (simp add: init_ok_def)
  from fresh_instance_initialises_independently
         [where init = init_ok and es = "[Mount, Effect 0]" and i = 0 and b = True
            and j = 1 and w' = "snd (mount (unmount 0 ?w))", OF s m] c r s m
  show ?thesis by simp
qed

section \<open>Properties of the rendered tree and of the bundler configuration\<close>

lemma elements_Index_view:
  "elements Index_view =
     [(''div'', [(''className'', AStr ''font-sans p-4'')]),
      (''h1'', [(''className'', AStr ''text-3xl'')]),
      (''canvas'', [(''id'', AStr ''canvas''), (''width'', ANum 1200), (''height'', ANum 600)])]"
  by (simp add: Index_view_def)

text \<open>
  Claim C5, as the code has it. The route renders a heading (an \<^verbatim>\<open>h1\<close>) and a canvas
  inside one \<^verbatim>\<open>div\<close>, and nothing else; the canvas has width 1200 and height 600, and its
  id \<^verbatim>\<open>canvas\<close> is the only id in the output, so the only name by which the external
  module can find its target.
\<close>

theorem Index_view_heading_and_canvas:
  "tags Index_view = [''div'', ''h1'', ''canvas''] \<and>
   has_heading Index_view \<and>
   with_tag ''canvas'' Index_view =
     [[(''id'', AStr ''canvas''), (''width'', ANum 1200), (''height'', ANum 600)]] \<and>
   ids Index_view = [AStr ''canvas'']"
  by (simp add: has_heading_def heading_tags_def tags_def with_tag_def ids_def
      elements_Index_view)

text \<open>
  Claim C5 as it is written also asks for a paragraph; the rendered tree has no \<^verbatim>\<open>p\<close>
  element.
\<close>

theorem Index_view_has_no_paragraph:
  "tags Index_view = [''div'', ''h1'', ''canvas''] \<and> \<not> has_paragraph Index_view"
  by (simp add: has_paragraph_def tags_def elements_Index_view)

text \<open>
  Claim C6. The bundler configuration has exactly three plugins, in this order:
  WebAssembly support, the framework's compiler plugin, the path-alias resolver; and the
  dev server's allow-list holds exactly the two directories \<^verbatim>\<open>.\<close> and \<^verbatim>\<open>../core\<close>.
\<close>

theorem bundler_config_plugins_and_allow_list:
  "map role_of (plugins config) = [WebAssemblySupport, FrameworkCompiler, PathAliasResolver] \<and>
   map plugin_package (plugins config) =
     [''vite-plugin-wasm'', ''@remix-run/dev'', ''vite-tsconfig-paths''] \<and>
   length (plugins config) = 3 \<and>
   server_fs_allow config = [''.'', ''../core''] \<and>
   length (server_fs_allow config) = 2 \<and> distinct (server_fs_allow config)"
  by (simp add: config_def)

section \<open>Properties of the Makefile\<close>

subsection \<open>The rules agree with the text\<close>

lemma rules_match_text:
  "hd Makefile_lines = ''.DEFAULT_GOAL := '' @ default_goal Makefile"
  "map target (rules Makefile) =
     filter (\<lambda>t. t \<noteq> ''.PHONY'') (map fst (List.map_filter header_of Makefile_lines))"
  "map (\<lambda>r. '' '' @ target r) (filter phony (rules Makefile)) =
     map snd (filter (\<lambda>h. fst h = ''.PHONY'') (List.map_filter header_of Makefile_lines))"
  by (simp_all add: Makefile_lines_def header_of_def List.map_filter_simps Makefile_def
      help_rule_def get_git_tag_rule_def build_core_rule_def)

lemma help_recipe_matches_text:
  "Makefile_lines ! 11 =
     [TAB] @ ''@'' @
     unwords [''grep'', ''-E'', shell_quote (make_dollar (grep_argv ! 2)), ''${COMMAND_LIST}'',
              ''|sed'', shell_quote (make_dollar (sed_argv ! 1)),
              ''|awk'', shell_quote (make_dollar (awk_argv ! 1))]"
  by (simp add: Makefile_lines_def grep_argv_def sed_argv_def awk_argv_def shell_quote_def
      make_dollar_def)

lemma recipes_match_text:
  "Makefile_lines ! 14 =
     [TAB] @ ''$(eval git_ver = $(shell '' @ unwords git_describe_abbrev @ ''))''"
  "Makefile_lines ! 15 =
     [TAB] @ ''$(eval git_ver_verbose = $(shell '' @ unwords git_describe_verbose @ ''))''"
  "Makefile_lines ! 19 = [TAB] @ ''@'' @ unwords wasm_pack_argv"
  by (simp_all add: Makefile_lines_def git_describe_abbrev_def git_describe_verbose_def
      wasm_pack_argv_def)

subsection \<open>What each goal does\<close>

lemma find_help: "find_rule (rules Makefile) ''help'' = Some help_rule"
  by (simp add: Makefile_def help_rule_def)


lemma find_build_core: "find_rule (rules Makefile) ''build-core'' = Some build_core_rule"
  by (simp add: Makefile_def help_rule_def get_git_tag_rule_def build_core_rule_def)

lemma run_single_command:
  "run_recipe e \<lparr>target = t, phony = ph, doc = d, recipe = [Run True p]\<rparr> result0 =
     (if pipeline_status e p = 0
      then result0\<lparr>ran := [p]\<rparr>
      else result0\<lparr>ran := [p], exit_code := 2, failed := Some (t, pipeline_status e p)\<rparr>)"
  by (simp add: run_recipe_def result0_def Let_def)

lemma make_help:
  "make e Makefile (Some ''help'') =
     (if exit_status e awk_argv = 0
      then result0\<lparr>ran := [help_pipeline]\<rparr>
      else result0\<lparr>ran := [help_pipeline], exit_code := 2,
                   failed := Some (''help'', exit_status e awk_argv)\<rparr>)"
proof -
  have r: "run_recipe e help_rule result0 =
             (if exit_status e awk_argv = 0
              then result0\<lparr>ran := [help_pipeline]\<rparr>
              else result0\<lparr>ran := [help_pipeline], exit_code := 2,
                           failed := Some (''help'', exit_status e awk_argv)\<rparr>)"
    unfolding help_rule_def
    by (simp add: run_single_command pipeline_status_def help_pipeline_def)
  have ph: "phony help_rule" by (simp add: help_rule_def)
  show ?thesis
    by (simp add: make_def update_def find_help ph r report_def)
qed

lemma make_build_core:
  "make e Makefile (Some ''build-core'') =
     (if exit_status e wasm_pack_argv = 0
      then result0\<lparr>ran := [[wasm_pack_argv]]\<rparr>
      else result0\<lparr>ran := [[wasm_pack_argv]], exit_code := 2,
                   failed := Some (''build-core'', exit_status e wasm_pack_argv)\<rparr>)"
proof -
  have r: "run_recipe e build_core_rule result0 =
             (if exit_status e wasm_pack_argv = 0
              then result0\<lparr>ran := [[wasm_pack_argv]]\<rparr>
              else result0\<lparr>ran := [[wasm_pack_argv]], exit_code := 2,
                           failed := Some (''build-core'', exit_status e wasm_pack_argv)\<rparr>)"
    unfolding build_core_rule_def
    by (simp add: run_single_command pipeline_status_def)
  have ph: "phony build_core_rule" by (simp add: build_core_rule_def)
  show ?thesis
    by (simp add: make_def update_def find_build_core ph r report_def)
qed


text \<open>How make reads the text of \<^verbatim>\<open>git describe\<close> when it assigns it.\<close>

lemma reread_plain:
  "\<not> list_ex (\<lambda>c. c = BS \<or> c = CHR ''$'' \<or> is_space c \<or> c = CHR ''#'') t \<Longrightarrow>
   reread t = Text t"
proof -
  assume plain: "\<not> list_ex (\<lambda>c. c = BS \<or> c = CHR ''$'' \<or> is_space c \<or> c = CHR ''#'') t"
  then have "\<forall>c \<in> set t. c \<noteq> CHR ''#''"
    by (auto simp: list_ex_iff)
  then have "takeWhile (\<lambda>c. c \<noteq> CHR ''#'') t = t"
    by (simp add: takeWhile_eq_all_conv)
  with plain show ?thesis
    by (auto simp: reread_def list_ex_iff)
qed

lemma reread_examples:
  "reread ''v1.2.0'' = Text ''v1.2.0''"
  "reread ''v1.2.0-3-g1a2b3c4-dirty'' = Text ''v1.2.0-3-g1a2b3c4-dirty''"
  "reread ''v1#rc'' = Text ''v1''"
  "reread [] = Text []"
  "reread ''v1$x'' = Unmodelled"
  by (simp_all add: reread_def is_space_def)

text \<open>Whatever the Makefile and the goal, make's exit code is 0 or 2.\<close>

lemma run_lines_exit_code:
  "exit_code r = 0 \<or> exit_code r = 2 \<Longrightarrow>
   exit_code (run_lines e t ls r) = 0 \<or> exit_code (run_lines e t ls r) = 2"
  by (induction e t ls r rule: run_lines.induct) (simp_all add: Let_def)

lemma report_exit_code: "exit_code (report ro g r) = exit_code r"
  by (simp add: report_def)

lemma make_exit_code: "exit_code (make e mk goal) = 0 \<or> exit_code (make e mk goal) = 2"
proof -
  have rr: "exit_code (run_recipe e rl result0) = 0 \<or> exit_code (run_recipe e rl result0) = 2"
    for rl
    unfolding run_recipe_def by (rule run_lines_exit_code) (simp add: result0_def)
  have r0: "exit_code result0 = 0" by (simp add: result0_def)
  show ?thesis
    using rr by (auto simp: make_def update_def report_exit_code r0 split: option.splits)
qed

subsection \<open>What the listing pipeline writes for this Makefile\<close>

lemma listed_Makefile: "listed Makefile_lines = [(''build-core'', ''build core'')]"
  by (simp add: listed_def Makefile_lines_def grep_E_def grep_match_def is_alpha_def
      is_space_def sed_s_def field_def FS_def)

lemma annotated_Makefile: "annotated_targets Makefile_lines = [(''build-core'', ''build core'')]"
  by (simp add: annotated_targets_def Makefile_lines_def header_of_def annotation_def
      List.map_filter_simps)

lemma help_listing_Makefile:
  "help_listing Makefile_lines =
     [[ESC] @ ''[36mbuild-core'' @ replicate 20 (CHR '' '') @ [ESC] @ ''[0m build core'']"
  by (simp add: help_listing_def awk_printf_def pad30_def Makefile_lines_def grep_E_def
      grep_match_def is_alpha_def is_space_def sed_s_def field_def FS_def)

subsection \<open>The claims about the Makefile\<close>

text \<open>
  Claim C7. \<^verbatim>\<open>help\<close> is the default goal: make with no goal does what \<^verbatim>\<open>make help\<close> does.
  It runs the listing pipeline, silently and once; the pipeline writes the documented
  targets with their descriptions (here one line, for \<^verbatim>\<open>build-core\<close>); and make's exit code
  is 0 when the shell's status of the pipeline, the status of its last program, is 0, and
  2 when it is not.
\<close>

theorem help_is_default_goal:
  "default_goal Makefile = ''help'' \<and>
   make e Makefile None = make e Makefile (Some ''help'') \<and>
   ran (make e Makefile None) = [help_pipeline] \<and>
   echoed (make e Makefile None) = [] \<and>
   pipeline_status e help_pipeline = exit_status e awk_argv \<and>
   exit_code (make e Makefile None) = (if pipeline_status e help_pipeline = 0 then 0 else 2) \<and>
   help_listing Makefile_lines =
     [[ESC] @ ''[36mbuild-core'' @ replicate 20 (CHR '' '') @ [ESC] @ ''[0m build core'']"
proof -
  have d: "default_goal Makefile = ''help''" by (simp add: Makefile_def)
  then have same: "make e Makefile None = make e Makefile (Some ''help'')"
    by (simp add: make_def)
  have st: "pipeline_status e help_pipeline = exit_status e awk_argv"
    by (simp add: pipeline_status_def help_pipeline_def)
  show ?thesis
    using d same st help_listing_Makefile by (simp add: make_help result0_def)
qed



text \<open>
  Claim C9, as the code has it. The recipe of \<^verbatim>\<open>build-core\<close> is one command,
  \<^verbatim>\<open>wasm-pack build core --target web\<close>, started exactly once whatever its status (no
  retry, no recovery). make reports the tool's status unchanged as the status of the failed
  target, and its own exit code is 0 when the tool's status is 0 and 2 otherwise.
\<close>

theorem build_core_runs_wasm_pack_once:
  "find_rule (rules Makefile) ''build-core'' = Some build_core_rule \<and>
   recipe build_core_rule = [Run True [wasm_pack_argv]] \<and>
   wasm_pack_argv = [''wasm-pack'', ''build'', ''core'', ''--target'', ''web''] \<and>
   ran (make e Makefile (Some ''build-core'')) = [[wasm_pack_argv]] \<and>
   failed (make e Makefile (Some ''build-core'')) =
     (if exit_status e wasm_pack_argv = 0 then None
      else Some (''build-core'', exit_status e wasm_pack_argv)) \<and>
   exit_code (make e Makefile (Some ''build-core'')) =
     (if exit_status e wasm_pack_argv = 0 then 0 else 2)"
  by (simp add: find_build_core make_build_core result0_def)
     (simp add: build_core_rule_def wasm_pack_argv_def)

text \<open>
  Claim C9 as it is written says that the exit code is exactly the tool's. When
  \<^verbatim>\<open>wasm-pack\<close> exits with 1, \<^verbatim>\<open>make build-core\<close> exits with 2.
\<close>

theorem build_core_exit_code_is_not_the_tools:
  "exit_status (env_with_status 1) wasm_pack_argv = 1 \<and>
   exit_code (make (env_with_status 1) Makefile (Some ''build-core'')) = 2"
  by (simp add: make_build_core env_with_status_def)

text \<open>
  Claim C10. The listing of \<^verbatim>\<open>help\<close> holds exactly the targets whose defining line carries
  an annotation \<^verbatim>\<open>: ## description\<close>. In this Makefile that is \<^verbatim>\<open>build-core\<close> alone, so
  neither \<^verbatim>\<open>help\<close> nor \<^verbatim>\<open>get_git_tag\<close> appears in the listing.
\<close>

theorem help_lists_only_build_core:
  "listed Makefile_lines = annotated_targets Makefile_lines \<and>
   annotated_targets Makefile_lines = [(''build-core'', ''build core'')] \<and>
   map fst (listed Makefile_lines) = map target (filter (\<lambda>r. doc r \<noteq> None) (rules Makefile)) \<and>
   map (\<lambda>r. (target r, doc r)) (rules Makefile) =
     [(''help'', None), (''get_git_tag'', None), (''build-core'', Some ''build core'')] \<and>
   ''help'' \<notin> set (map fst (listed Makefile_lines)) \<and>
   ''get_git_tag'' \<notin> set (map fst (listed Makefile_lines))"
  by (simp add: listed_Makefile annotated_Makefile)
     (simp add: Makefile_def help_rule_def get_git_tag_rule_def build_core_rule_def)

end
